theory Spec2Isabelle
  imports Main
begin

section \<open>Data model (models/database.py)\<close>

text \<open>
  A UUID is identified with its 128-bit integer value; timestamps are seconds.
  The columns keep their names; \<open>id\<close> is suffixed because both tables have one
  (\<open>id_t\<close> for tasks, \<open>id_u\<close> for users), and so are the users' timestamps.
  Columns declared without \<open>nullable=False\<close> hold an option; \<open>title\<close> is an option
  too, because an in-memory instance can carry \<open>None\<close> before the storage engine
  rejects it at commit.
\<close>

type_synonym uuid = nat
type_synonym time = int

record user =
  id_u :: uuid
  email :: string
  name :: "string option"
  hashed_password :: string
  created_at_u :: time
  updated_at_u :: time

record task =
  id_t :: uuid
  user_id :: uuid
  title :: "string option"
  description :: "string option"
  completed :: "bool option"
  priority :: "string option"
  created_at :: time
  updated_at :: time

text \<open>
  An instance held by a session: the mapped columns, and the one attribute the
  service can put on an instance that is not a column (\<open>tags\<close>, by \<open>setattr\<close> in
  \<open>update_task\<close>). \<open>None\<close> means the instance has no such attribute.
\<close>

record task_obj =
  cols :: task
  tags_attr :: "string list option option"

datatype db_op = Query | Add | Commit | Refresh | Delete

text \<open>
  The storage engine as seen through one session: the two tables in insertion order,
  the engine's current time (what \<open>func.now()\<close> reads), and the trace of the session
  calls made so far.
\<close>

record database =
  users :: "user list"
  tasks :: "task list"
  clock :: time
  oplog :: "db_op list"

datatype error =
    HTTPException nat string
  | IntegrityError
  | InvalidRequestError
  | ValidationError
  | AttributeError

section \<open>Request schemas (schemas/task.py)\<close>

record TaskCreate =
  title_c :: string
  description_c :: "string option"
  completed_c :: bool
  priority_c :: "string option"
  tags_c :: "string list option"

text \<open>
  \<open>TaskUpdate\<close>: every field is optional and remembers whether it was set.
  The outer option is "set or unset", the inner one the value, which may be \<open>None\<close>
  (an explicit null).
\<close>

record TaskUpdate =
  title_upd :: "string option option"
  description_upd :: "string option option"
  completed_upd :: "bool option option"
  priority_upd :: "string option option"
  tags_upd :: "string list option option"

datatype update_item =
    Title "string option"
  | Description "string option"
  | Completed "bool option"
  | Priority "string option"
  | Tags "string list option"

text \<open>\<open>task_data.dict(exclude_unset=True)\<close>: the fields that were set, in declaration order.\<close>

definition dict_exclude_unset :: "TaskUpdate \<Rightarrow> update_item list" where
  "dict_exclude_unset d =
     (case title_upd d of None \<Rightarrow> [] | Some v \<Rightarrow> [Title v]) @
     (case description_upd d of None \<Rightarrow> [] | Some v \<Rightarrow> [Description v]) @
     (case completed_upd d of None \<Rightarrow> [] | Some v \<Rightarrow> [Completed v]) @
     (case priority_upd d of None \<Rightarrow> [] | Some v \<Rightarrow> [Priority v]) @
     (case tags_upd d of None \<Rightarrow> [] | Some v \<Rightarrow> [Tags v])"

fun setattr :: "task_obj \<Rightarrow> update_item \<Rightarrow> task_obj" where
  "setattr obj (Title v) = obj\<lparr>cols := (cols obj)\<lparr>title := v\<rparr>\<rparr>"
| "setattr obj (Description v) = obj\<lparr>cols := (cols obj)\<lparr>description := v\<rparr>\<rparr>"
| "setattr obj (Completed v) = obj\<lparr>cols := (cols obj)\<lparr>completed := v\<rparr>\<rparr>"
| "setattr obj (Priority v) = obj\<lparr>cols := (cols obj)\<lparr>priority := v\<rparr>\<rparr>"
| "setattr obj (Tags v) = obj\<lparr>tags_attr := Some v\<rparr>"

section \<open>The session\<close>

definition session_op :: "db_op \<Rightarrow> database \<Rightarrow> database" where
  "session_op op db = db\<lparr>oplog := oplog db @ [op]\<rparr>"

text \<open>A row loaded by a query is a fresh instance: columns only.\<close>

definition load :: "task \<Rightarrow> task_obj" where
  "load r = \<lparr>cols = r, tags_attr = None\<rparr>"

text \<open>
  Flushing a new row: the primary key is unique, so a generated id that is already
  present is refused by the engine.
\<close>

definition flush_insert :: "task \<Rightarrow> database \<Rightarrow> error + database" where
  "flush_insert row db =
     (if id_t row \<in> set (map id_t (tasks db)) \<or> title row = None then Inl IntegrityError
      else Inr (db\<lparr>tasks := tasks db @ [row]\<rparr>))"

text \<open>
  Flushing a modified instance. The unit of work emits an UPDATE only when some
  column has a net change; \<open>onupdate=func.now()\<close> is part of that statement, and
  \<open>title\<close> is \<open>nullable=False\<close>.
\<close>

definition flush_update :: "task \<Rightarrow> task \<Rightarrow> database \<Rightarrow> error + database" where
  "flush_update old new db =
     (if new = old then Inr db
      else if title new = None then Inl IntegrityError
      else Inr (db\<lparr>tasks := map (\<lambda>r. if id_t r = id_t old
                                         then new\<lparr>updated_at := clock db\<rparr> else r) (tasks db)\<rparr>))"

text \<open>
  Whether a payload gives some column a value other than the one the row holds. Only
  then does the flush of \<open>update_task\<close> emit an UPDATE.
\<close>

definition net_change :: "TaskUpdate \<Rightarrow> task \<Rightarrow> bool" where
  "net_change d t =
     ((case title_upd d of None \<Rightarrow> False | Some v \<Rightarrow> v \<noteq> title t) \<or>
      (case description_upd d of None \<Rightarrow> False | Some v \<Rightarrow> v \<noteq> description t) \<or>
      (case completed_upd d of None \<Rightarrow> False | Some v \<Rightarrow> v \<noteq> completed t) \<or>
      (case priority_upd d of None \<Rightarrow> False | Some v \<Rightarrow> v \<noteq> priority t))"

definition flush_delete :: "task \<Rightarrow> database \<Rightarrow> database" where
  "flush_delete row db = db\<lparr>tasks := filter (\<lambda>r. id_t r \<noteq> id_t row) (tasks db)\<rparr>"

text \<open>\<open>refresh\<close> reloads the columns of an instance by primary key and keeps its other attributes.\<close>

definition session_refresh :: "task_obj \<Rightarrow> database \<Rightarrow> error + task_obj" where
  "session_refresh obj db =
     (case find (\<lambda>r. id_t r = id_t (cols obj)) (tasks db) of
        None \<Rightarrow> Inl InvalidRequestError
      | Some r \<Rightarrow> Inr (obj\<lparr>cols := r\<rparr>))"

section \<open>TaskService (services/task_service.py)\<close>

text \<open>
  \<open>new_id\<close> is the value \<open>uuid.uuid4\<close> yields for the \<open>id\<close> column. An attribute that
  is \<open>None\<close> on a new instance is left out of the INSERT, so the column default
  applies: a \<open>priority\<close> of \<open>None\<close> is stored as \<open>medium\<close>. The \<open>tags\<close> of the payload
  are not passed to the constructor.
\<close>

definition create_task ::
  "uuid \<Rightarrow> database \<Rightarrow> uuid \<Rightarrow> TaskCreate \<Rightarrow> (error + task_obj) \<times> database" where
  "create_task new_id db uid task_data =
     (let row = \<lparr>id_t = new_id, user_id = uid,
                 title = Some (title_c task_data),
                 description = description_c task_data,
                 completed = Some (completed_c task_data),
                 priority = (case priority_c task_data of None \<Rightarrow> Some ''medium'' | Some p \<Rightarrow> Some p),
                 created_at = clock db, updated_at = clock db\<rparr>;
          db1 = session_op Add db
      in case flush_insert row (session_op Commit db1) of
           Inl e \<Rightarrow> (Inl e, session_op Commit db1)
         | Inr db2 \<Rightarrow>
             (case session_refresh (load row) db2 of
                Inl e \<Rightarrow> (Inl e, session_op Refresh db2)
              | Inr task \<Rightarrow> (Inr task, session_op Refresh db2)))"

definition get_task_by_id :: "database \<Rightarrow> uuid \<Rightarrow> uuid \<Rightarrow> task_obj option \<times> database" where
  "get_task_by_id db uid tid =
     (case filter (\<lambda>t. user_id t = uid \<and> id_t t = tid) (tasks db) of
        [] \<Rightarrow> (None, session_op Query db)
      | t # _ \<Rightarrow> (Some (load t), session_op Query db))"

definition status_filter :: "string option \<Rightarrow> task \<Rightarrow> bool" where
  "status_filter status t =
     (case status of
        None \<Rightarrow> True
      | Some s \<Rightarrow>
          if s = [] then True
          else if s = ''completed'' then completed t = Some True
          else if s = ''incomplete'' then completed t = Some False
          else True)"

definition priority_filter :: "string option \<Rightarrow> task \<Rightarrow> bool" where
  "priority_filter prio t =
     (case prio of
        None \<Rightarrow> True
      | Some p \<Rightarrow> if p = [] then True else priority t = Some p)"

definition get_tasks_by_user ::
  "database \<Rightarrow> uuid \<Rightarrow> string option \<Rightarrow> string option \<Rightarrow> task_obj list \<times> database" where
  "get_tasks_by_user db uid status prio =
     (let query = filter (\<lambda>t. user_id t = uid) (tasks db);
          query = filter (status_filter status) query;
          query = filter (priority_filter prio) query
      in (map load query, session_op Query db))"

definition update_task ::
  "database \<Rightarrow> uuid \<Rightarrow> uuid \<Rightarrow> TaskUpdate \<Rightarrow> (error + task_obj option) \<times> database" where
  "update_task db uid tid task_data =
     (case get_task_by_id db uid tid of
        (None, db1) \<Rightarrow> (Inr None, db1)
      | (Some task, db1) \<Rightarrow>
          (let task' = foldl setattr task (dict_exclude_unset task_data);
               db2 = session_op Commit (session_op Add db1)
           in case flush_update (cols task) (cols task') db2 of
                Inl e \<Rightarrow> (Inl e, db2)
              | Inr db3 \<Rightarrow>
                  (case session_refresh task' db3 of
                     Inl e \<Rightarrow> (Inl e, session_op Refresh db3)
                   | Inr task'' \<Rightarrow> (Inr (Some task''), session_op Refresh db3))))"

definition delete_task :: "database \<Rightarrow> uuid \<Rightarrow> uuid \<Rightarrow> bool \<times> database" where
  "delete_task db uid tid =
     (case get_task_by_id db uid tid of
        (None, db1) \<Rightarrow> (False, db1)
      | (Some task, db1) \<Rightarrow>
          (True, session_op Commit (flush_delete (cols task) (session_op Delete db1))))"

definition toggle_task_completion ::
  "database \<Rightarrow> uuid \<Rightarrow> uuid \<Rightarrow> bool \<Rightarrow> (error + task_obj option) \<times> database" where
  "toggle_task_completion db uid tid c =
     (case get_task_by_id db uid tid of
        (None, db1) \<Rightarrow> (Inr None, db1)
      | (Some task, db1) \<Rightarrow>
          (let task' = task\<lparr>cols := (cols task)\<lparr>completed := Some c\<rparr>\<rparr>;
               db2 = session_op Commit (session_op Add db1)
           in case flush_update (cols task) (cols task') db2 of
                Inl e \<Rightarrow> (Inl e, db2)
              | Inr db3 \<Rightarrow>
                  (case session_refresh task' db3 of
                     Inl e \<Rightarrow> (Inl e, session_op Refresh db3)
                   | Inr task'' \<Rightarrow> (Inr (Some task''), session_op Refresh db3))))"

section \<open>Response schemas (schemas/task.py)\<close>

record task_schema =
  title_s :: string
  description_s :: "string option"
  completed_s :: bool
  priority_s :: "string option"
  tags_s :: "string list option"
  id_s :: uuid
  user_id_s :: uuid
  created_at_s :: time
  updated_at_s :: time

datatype response =
    TasksResponse bool "task_schema list"
  | TaskResponse bool task_schema
  | MessageResponse bool string

text \<open>
  Building the \<open>Task\<close> schema from an instance (\<open>from_attributes = True\<close>): each field is
  read as an attribute and validated against the field's declaration; an attribute the
  instance does not have takes the field's default, which for \<open>tags\<close> is the empty list.
\<close>

definition from_attributes :: "task_obj \<Rightarrow> error + task_schema" where
  "from_attributes obj =
     (case title (cols obj) of
        None \<Rightarrow> Inl ValidationError
      | Some ti \<Rightarrow>
          if \<not> (1 \<le> length ti \<and> length ti \<le> 255) then Inl ValidationError
          else (case completed (cols obj) of
                  None \<Rightarrow> Inl ValidationError
                | Some c \<Rightarrow>
                    if (case priority (cols obj) of
                          None \<Rightarrow> False
                        | Some p \<Rightarrow> p \<notin> set [''low'', ''medium'', ''high''])
                    then Inl ValidationError
                    else Inr \<lparr>title_s = ti,
                              description_s = description (cols obj),
                              completed_s = c,
                              priority_s = priority (cols obj),
                              tags_s = (case tags_attr obj of None \<Rightarrow> Some [] | Some v \<Rightarrow> v),
                              id_s = id_t (cols obj),
                              user_id_s = user_id (cols obj),
                              created_at_s = created_at (cols obj),
                              updated_at_s = updated_at (cols obj)\<rparr>))"

fun from_attributes_all :: "task_obj list \<Rightarrow> error + task_schema list" where
  "from_attributes_all [] = Inr []"
| "from_attributes_all (obj # objs) =
     (case from_attributes obj of
        Inl e \<Rightarrow> Inl e
      | Inr x \<Rightarrow> (case from_attributes_all objs of Inl e \<Rightarrow> Inl e | Inr xs \<Rightarrow> Inr (x # xs)))"

section \<open>Task endpoints (api/v1/tasks.py)\<close>

text \<open>
  \<open>token_data\<close> is the dictionary of claims that the bearer dependency hands to the
  endpoint. \<open>uuid_UUID\<close> is the standard library's parser, taken as a parameter:
  \<open>None\<close> stands for its \<open>ValueError\<close>. The function \<open>UUID\<close> further down writes that
  parser out. The endpoints carry the suffix \<open>_route\<close>
  because four of them share their names with the service methods they call.
\<close>

datatype jv = JStr string | JNum int

type_synonym claims = "string \<rightharpoonup> jv"

text \<open>
  In \<open>get_tasks\<close> the query parameter \<open>status\<close> hides the imported module of the same
  name. The mismatch branch evaluates \<open>status.HTTP_401_UNAUTHORIZED\<close> on that parameter,
  a string or \<open>None\<close>, and raises \<open>AttributeError\<close> before the exception it means to
  raise is built. The other five endpoints have no such parameter.
\<close>

definition get_tasks_route ::
  "(string \<Rightarrow> uuid option) \<Rightarrow> claims \<Rightarrow> database \<Rightarrow> string \<Rightarrow> string option \<Rightarrow> string option
     \<Rightarrow> (error + response) \<times> database" where
  "get_tasks_route uuid_UUID token_data db uid status prio =
     (if token_data ''sub'' \<noteq> Some (JStr uid)
      then (Inl AttributeError, db)
      else case uuid_UUID uid of
             None \<Rightarrow> (Inl (HTTPException 400 ''Invalid user ID format''), db)
           | Some user_uuid \<Rightarrow>
               (case get_tasks_by_user db user_uuid status prio of
                  (tasks', db') \<Rightarrow>
                    (case from_attributes_all tasks' of
                       Inl e \<Rightarrow> (Inl e, db')
                     | Inr data \<Rightarrow> (Inr (TasksResponse True data), db'))))"

definition create_task_route ::
  "(string \<Rightarrow> uuid option) \<Rightarrow> uuid \<Rightarrow> claims \<Rightarrow> database \<Rightarrow> string \<Rightarrow> TaskCreate
     \<Rightarrow> (error + response) \<times> database" where
  "create_task_route uuid_UUID new_id token_data db uid task_data =
     (if token_data ''sub'' \<noteq> Some (JStr uid)
      then (Inl (HTTPException 401 ''Unauthorized to create tasks for this user''), db)
      else case uuid_UUID uid of
             None \<Rightarrow> (Inl (HTTPException 400 ''Invalid user ID format''), db)
           | Some user_uuid \<Rightarrow>
               (case create_task new_id db user_uuid task_data of
                  (Inl e, db') \<Rightarrow> (Inl e, db')
                | (Inr task, db') \<Rightarrow>
                    (case from_attributes task of
                       Inl e \<Rightarrow> (Inl e, db')
                     | Inr data \<Rightarrow> (Inr (TaskResponse True data), db'))))"

definition get_task_route ::
  "(string \<Rightarrow> uuid option) \<Rightarrow> claims \<Rightarrow> database \<Rightarrow> string \<Rightarrow> string
     \<Rightarrow> (error + response) \<times> database" where
  "get_task_route uuid_UUID token_data db uid tid =
     (if token_data ''sub'' \<noteq> Some (JStr uid)
      then (Inl (HTTPException 401 ''Unauthorized access to this task''), db)
      else case (uuid_UUID uid, uuid_UUID tid) of
             (Some user_uuid, Some task_uuid) \<Rightarrow>
               (case get_task_by_id db user_uuid task_uuid of
                  (None, db') \<Rightarrow> (Inl (HTTPException 404 ''Task not found''), db')
                | (Some task, db') \<Rightarrow>
                    (case from_attributes task of
                       Inl e \<Rightarrow> (Inl e, db')
                     | Inr data \<Rightarrow> (Inr (TaskResponse True data), db')))
           | _ \<Rightarrow> (Inl (HTTPException 400 ''Invalid user or task ID format''), db))"

definition update_task_route ::
  "(string \<Rightarrow> uuid option) \<Rightarrow> claims \<Rightarrow> database \<Rightarrow> string \<Rightarrow> string \<Rightarrow> TaskUpdate
     \<Rightarrow> (error + response) \<times> database" where
  "update_task_route uuid_UUID token_data db uid tid task_data =
     (if token_data ''sub'' \<noteq> Some (JStr uid)
      then (Inl (HTTPException 401 ''Unauthorized to update this task''), db)
      else case (uuid_UUID uid, uuid_UUID tid) of
             (Some user_uuid, Some task_uuid) \<Rightarrow>
               (case update_task db user_uuid task_uuid task_data of
                  (Inl e, db') \<Rightarrow> (Inl e, db')
                | (Inr None, db') \<Rightarrow> (Inl (HTTPException 404 ''Task not found''), db')
                | (Inr (Some task), db') \<Rightarrow>
                    (case from_attributes task of
                       Inl e \<Rightarrow> (Inl e, db')
                     | Inr data \<Rightarrow> (Inr (TaskResponse True data), db')))
           | _ \<Rightarrow> (Inl (HTTPException 400 ''Invalid user or task ID format''), db))"

definition delete_task_route ::
  "(string \<Rightarrow> uuid option) \<Rightarrow> claims \<Rightarrow> database \<Rightarrow> string \<Rightarrow> string
     \<Rightarrow> (error + response) \<times> database" where
  "delete_task_route uuid_UUID token_data db uid tid =
     (if token_data ''sub'' \<noteq> Some (JStr uid)
      then (Inl (HTTPException 401 ''Unauthorized to delete this task''), db)
      else case (uuid_UUID uid, uuid_UUID tid) of
             (Some user_uuid, Some task_uuid) \<Rightarrow>
               (case delete_task db user_uuid task_uuid of
                  (False, db') \<Rightarrow> (Inl (HTTPException 404 ''Task not found''), db')
                | (True, db') \<Rightarrow> (Inr (MessageResponse True ''Task deleted successfully''), db'))
           | _ \<Rightarrow> (Inl (HTTPException 400 ''Invalid user or task ID format''), db))"

definition toggle_task_completion_route ::
  "(string \<Rightarrow> uuid option) \<Rightarrow> claims \<Rightarrow> database \<Rightarrow> string \<Rightarrow> string \<Rightarrow> bool
     \<Rightarrow> (error + response) \<times> database" where
  "toggle_task_completion_route uuid_UUID token_data db uid tid c =
     (if token_data ''sub'' \<noteq> Some (JStr uid)
      then (Inl (HTTPException 401 ''Unauthorized to update this task''), db)
      else case (uuid_UUID uid, uuid_UUID tid) of
             (Some user_uuid, Some task_uuid) \<Rightarrow>
               (case toggle_task_completion db user_uuid task_uuid c of
                  (Inl e, db') \<Rightarrow> (Inl e, db')
                | (Inr None, db') \<Rightarrow> (Inl (HTTPException 404 ''Task not found''), db')
                | (Inr (Some task), db') \<Rightarrow>
                    (case from_attributes task of
                       Inl e \<Rightarrow> (Inl e, db')
                     | Inr data \<Rightarrow> (Inr (TaskResponse True data), db')))
           | _ \<Rightarrow> (Inl (HTTPException 400 ''Invalid user or task ID format''), db))"

section \<open>Registration (api/v1/auth.py)\<close>

record UserCreate =
  email_c :: string
  name_c :: "string option"
  password_c :: string

text \<open>
  \<open>get_password_hash\<close> delegates to the password-hashing library and is a parameter
  here; \<open>new_id\<close> is the generated primary key, refused by the engine when taken.
\<close>

definition register_user ::
  "(string \<Rightarrow> string) \<Rightarrow> uuid \<Rightarrow> database \<Rightarrow> UserCreate \<Rightarrow> (error + user) \<times> database" where
  "register_user get_password_hash new_id db user_data =
     (let db1 = session_op Query db
      in case find (\<lambda>u. email u = email_c user_data) (users db) of
           Some existing_user \<Rightarrow>
             (Inl (HTTPException 400 ''A user with this email already exists''), db1)
         | None \<Rightarrow>
             (let hashed = get_password_hash (password_c user_data);
                  db_user = \<lparr>id_u = new_id, email = email_c user_data, name = name_c user_data,
                             hashed_password = hashed,
                             created_at_u = clock db, updated_at_u = clock db\<rparr>;
                  db2 = session_op Commit (session_op Add db1)
              in if new_id \<in> set (map id_u (users db)) then (Inl IntegrityError, db2)
                 else (Inr db_user, session_op Refresh (db2\<lparr>users := users db @ [db_user]\<rparr>))))"

text \<open>
  A sequence of registration requests, served one after the other; each request comes
  with the primary key generated for it.
\<close>

fun register_all ::
  "(string \<Rightarrow> string) \<Rightarrow> database \<Rightarrow> (uuid \<times> UserCreate) list
     \<Rightarrow> (error + user) list \<times> database" where
  "register_all h db [] = ([], db)"
| "register_all h db ((new_id, user_data) # reqs) =
     (case register_user h new_id db user_data of
        (r, db') \<Rightarrow> (case register_all h db' reqs of (rs, db'') \<Rightarrow> (r # rs, db'')))"

fun yielded :: "(error + user) list \<Rightarrow> user list" where
  "yielded [] = []"
| "yielded (Inl e # rs) = yielded rs"
| "yielded (Inr u # rs) = u # yielded rs"

section \<open>Tokens (core/security.py)\<close>

text \<open>
  The signing library is a parameter: \<open>jwt_encode payload key\<close> is \<open>jwt.encode\<close>,
  \<open>jwt_decode token key now\<close> is \<open>jwt.decode\<close> run at time \<open>now\<close>, with the library's
  exception as a value. \<open>utcnow\<close> is the reading of \<open>datetime.utcnow()\<close>; an
  expiration time is kept as the number of seconds it is encoded to. A \<open>timedelta\<close>
  is a number of seconds, and is false as a condition when it is zero.
\<close>

datatype jwt_error = ExpiredSignatureError | InvalidSignatureError | DecodeError

definition days :: "int \<Rightarrow> int" where
  "days n = n * 86400"

definition create_access_token ::
  "(claims \<Rightarrow> string \<Rightarrow> 'tok) \<Rightarrow> string \<Rightarrow> time \<Rightarrow> claims \<Rightarrow> int option \<Rightarrow> 'tok" where
  "create_access_token jwt_encode secret utcnow data expires_delta =
     (let to_encode = data;
          expire = (case expires_delta of
                      None \<Rightarrow> utcnow + days 7
                    | Some d \<Rightarrow> if d \<noteq> 0 then utcnow + d else utcnow + days 7);
          to_encode = to_encode(''exp'' \<mapsto> JNum expire)
      in jwt_encode to_encode secret)"

definition verify_token ::
  "('tok \<Rightarrow> string \<Rightarrow> time \<Rightarrow> jwt_error + claims) \<Rightarrow> string \<Rightarrow> time \<Rightarrow> 'tok \<Rightarrow> claims option" where
  "verify_token jwt_decode secret utcnow token =
     (case jwt_decode token secret utcnow of
        Inr payload \<Rightarrow> Some payload
      | Inl e \<Rightarrow> None)"

text \<open>The claims that login puts into a token: subject and email.\<close>

definition login_data :: "string \<Rightarrow> string \<Rightarrow> claims" where
  "login_data sub em = [''sub'' \<mapsto> JStr sub, ''email'' \<mapsto> JStr em]"

text \<open>
  What the token functions rely on from the signing library, for the payloads that
  login produces: a token decodes to its payload under the same key strictly before
  its expiration time, and is refused as expired strictly after it.
\<close>

definition signing_contract ::
  "(claims \<Rightarrow> string \<Rightarrow> 'tok) \<Rightarrow> ('tok \<Rightarrow> string \<Rightarrow> time \<Rightarrow> jwt_error + claims) \<Rightarrow> bool" where
  "signing_contract jwt_encode jwt_decode =
     (\<forall>sub em key e t.
        (t < e \<longrightarrow>
           jwt_decode (jwt_encode ((login_data sub em)(''exp'' \<mapsto> JNum e)) key) key t
             = Inr ((login_data sub em)(''exp'' \<mapsto> JNum e))) \<and>
        (e < t \<longrightarrow>
           jwt_decode (jwt_encode ((login_data sub em)(''exp'' \<mapsto> JNum e)) key) key t
             = Inl ExpiredSignatureError))"

text \<open>
  A small signing scheme that meets the contract, used to instantiate it: the token
  carries its payload and the key it was made with.
\<close>

datatype plain_token = Signed claims string | Garbage

definition plain_encode :: "claims \<Rightarrow> string \<Rightarrow> plain_token" where
  "plain_encode payload key = Signed payload key"

fun plain_decode :: "plain_token \<Rightarrow> string \<Rightarrow> time \<Rightarrow> jwt_error + claims" where
  "plain_decode Garbage key now = Inl DecodeError"
| "plain_decode (Signed payload k) key now =
     (if k \<noteq> key then Inl InvalidSignatureError
      else case payload ''exp'' of
             Some (JNum e) \<Rightarrow> if e \<le> now then Inl ExpiredSignatureError else Inr payload
           | _ \<Rightarrow> Inr payload)"

section \<open>The identifier parser\<close>

text \<open>
  The constructor \<open>uuid.UUID(hex)\<close> of the standard library, which the endpoints call on
  the path parameters, written out for strings of code points below 256:
  \<^verbatim>\<open>
  hex = hex.replace('urn:', '').replace('uuid:', '')
  hex = hex.strip('{}').replace('-', '')
  if len(hex) != 32: raise ValueError
  int = int_(hex, 16)
  if not 0 <= int < 1<<128: raise ValueError
  \<close>
  \<open>None\<close> stands for the \<open>ValueError\<close>. \<open>int_16\<close> is \<open>int(hex, 16)\<close>: surrounding
  white space, an optional sign, an optional \<open>0x\<close> or \<open>0X\<close> that one underscore may
  follow, then hexadecimal digits with single underscores between them.
\<close>

fun replace_del :: "string \<Rightarrow> string \<Rightarrow> string" where
  "replace_del old [] = []"
| "replace_del old (c # cs) =
     (if old \<noteq> [] \<and> take (length old) (c # cs) = old
      then replace_del old (drop (length old) (c # cs))
      else c # replace_del old cs)"

definition strip_chars :: "string \<Rightarrow> string \<Rightarrow> string" where
  "strip_chars chars s =
     rev (dropWhile (\<lambda>c. c \<in> set chars) (rev (dropWhile (\<lambda>c. c \<in> set chars) s)))"

definition is_space :: "char \<Rightarrow> bool" where
  "is_space c = (c \<in> set [CHR 0x09, CHR 0x0A, CHR 0x0B, CHR 0x0C, CHR 0x0D, CHR 0x1C, CHR 0x1D,
                            CHR 0x1E, CHR 0x1F, CHR 0x20, CHR 0x85, CHR 0xA0])"

definition hex_digit :: "char \<Rightarrow> nat option" where
  "hex_digit c = map_of
     [(CHR ''0'', 0), (CHR ''1'', 1), (CHR ''2'', 2), (CHR ''3'', 3), (CHR ''4'', 4),
      (CHR ''5'', 5), (CHR ''6'', 6), (CHR ''7'', 7), (CHR ''8'', 8), (CHR ''9'', 9),
      (CHR ''a'', 10), (CHR ''b'', 11), (CHR ''c'', 12), (CHR ''d'', 13), (CHR ''e'', 14),
      (CHR ''f'', 15), (CHR ''A'', 10), (CHR ''B'', 11), (CHR ''C'', 12), (CHR ''D'', 13),
      (CHR ''E'', 14), (CHR ''F'', 15)] c"

text \<open>
  The digit loop: \<open>prev\<close> is the character read last, \<open>n\<close> the number of digits so far.
  It stops at the first character that is neither a digit nor an underscore and fails
  on two underscores in a row and on an underscore at the end.
\<close>

fun scan_digits :: "char \<Rightarrow> nat \<Rightarrow> nat \<Rightarrow> string \<Rightarrow> (nat \<times> nat \<times> string) option" where
  "scan_digits prev n acc [] = (if prev = CHR ''_'' then None else Some (n, acc, []))"
| "scan_digits prev n acc (c # cs) =
     (if c = CHR ''_'' then (if prev = CHR ''_'' then None else scan_digits c n acc cs)
      else case hex_digit c of
             Some d \<Rightarrow> scan_digits c (Suc n) (16 * acc + d) cs
           | None \<Rightarrow> if prev = CHR ''_'' then None else Some (n, acc, c # cs))"

definition sign_of :: "string \<Rightarrow> int" where
  "sign_of s = (case s of c # r \<Rightarrow> if c = CHR ''-'' then - 1 else 1 | [] \<Rightarrow> 1)"

definition skip_sign :: "string \<Rightarrow> string" where
  "skip_sign s = (case s of c # r \<Rightarrow> if c = CHR ''+'' \<or> c = CHR ''-'' then r else s | [] \<Rightarrow> s)"

definition skip_prefix :: "string \<Rightarrow> string" where
  "skip_prefix s =
     (case s of
        a # b # r \<Rightarrow>
          if a = CHR ''0'' \<and> (b = CHR ''x'' \<or> b = CHR ''X'')
          then (case r of u # r' \<Rightarrow> if u = CHR ''_'' then r' else r | [] \<Rightarrow> r)
          else s
      | _ \<Rightarrow> s)"

definition int_16 :: "string \<Rightarrow> int option" where
  "int_16 s =
     (let s1 = dropWhile is_space s;
          s3 = skip_prefix (skip_sign s1)
      in if s3 \<noteq> [] \<and> hd s3 = CHR ''_'' then None
         else case scan_digits (CHR 0x00) 0 0 s3 of
                None \<Rightarrow> None
              | Some (n, v, rest) \<Rightarrow>
                  if n = 0 then None
                  else if dropWhile is_space rest \<noteq> [] then None
                  else Some (sign_of s1 * int v))"

definition UUID :: "string \<Rightarrow> uuid option" where
  "UUID hex =
     (let hex = replace_del ''uuid:'' (replace_del ''urn:'' hex);
          hex = filter (\<lambda>c. c \<noteq> CHR ''-'') (strip_chars ''{}'' hex)
      in if length hex \<noteq> 32 then None
         else case int_16 hex of
                None \<Rightarrow> None
              | Some i \<Rightarrow> if 0 \<le> i \<and> i < 2 ^ 128 then Some (nat i) else None)"

section \<open>Identifiers in canonical textual form\<close>

text \<open>
  The canonical form of a UUID: 8-4-4-4-12 hexadecimal digits separated by hyphens.
  This parser accepts exactly that form; it instantiates the \<open>uuid_UUID\<close> parameter of
  the endpoints at concrete requests.
\<close>

fun parse_hex :: "nat \<Rightarrow> string \<Rightarrow> nat option" where
  "parse_hex acc [] = Some acc"
| "parse_hex acc (c # cs) =
     (case hex_digit c of None \<Rightarrow> None | Some d \<Rightarrow> parse_hex (16 * acc + d) cs)"

definition canonical_uuid :: "string \<Rightarrow> uuid option" where
  "canonical_uuid s =
     (if length s = 36 \<and> s ! 8 = CHR ''-'' \<and> s ! 13 = CHR ''-'' \<and> s ! 18 = CHR ''-''
         \<and> s ! 23 = CHR ''-''
      then parse_hex 0 (take 8 s @ take 4 (drop 9 s) @ take 4 (drop 14 s)
                          @ take 4 (drop 19 s) @ drop 24 s)
      else None)"

section \<open>Invariants of the store\<close>

text \<open>The primary keys of both tables are unique, and so are the users' emails.\<close>

definition pk_unique :: "database \<Rightarrow> bool" where
  "pk_unique db = distinct (map id_t (tasks db))"

definition users_unique :: "database \<Rightarrow> bool" where
  "users_unique db = (distinct (map id_u (users db)) \<and> distinct (map email (users db)))"

section \<open>A small store for concrete runs\<close>

text \<open>
  Two users and three tasks: Alice (id 10) owns \<open>milk\<close> and \<open>report\<close>, Bob (id 11) owns
  \<open>walk\<close>. The strings below are the canonical forms of the ids 10, 11 and 12.
\<close>

definition alice :: user where
  "alice = \<lparr>id_u = 10, email = ''alice@example.com'', name = Some ''Alice'',
            hashed_password = ''h1'', created_at_u = 5, updated_at_u = 5\<rparr>"

definition bob :: user where
  "bob = \<lparr>id_u = 11, email = ''bob@example.com'', name = None,
          hashed_password = ''h2'', created_at_u = 6, updated_at_u = 6\<rparr>"

definition milk :: task where
  "milk = \<lparr>id_t = 12, user_id = 10, title = Some ''buy milk'', description = None,
           completed = Some False, priority = Some ''low'', created_at = 7, updated_at = 7\<rparr>"

definition report :: task where
  "report = \<lparr>id_t = 13, user_id = 10, title = Some ''write report'', description = Some ''due'',
             completed = Some True, priority = Some ''high'', created_at = 8, updated_at = 8\<rparr>"

definition walk :: task where
  "walk = \<lparr>id_t = 14, user_id = 11, title = Some ''walk'', description = None,
           completed = Some True, priority = Some ''low'', created_at = 9, updated_at = 9\<rparr>"

definition store :: database where
  "store = \<lparr>users = [alice, bob], tasks = [milk, report, walk], clock = 20, oplog = []\<rparr>"

definition alice_id :: string where
  "alice_id = ''00000000-0000-0000-0000-00000000000a''"

definition bob_id :: string where
  "bob_id = ''00000000-0000-0000-0000-00000000000b''"

definition milk_id :: string where
  "milk_id = ''00000000-0000-0000-0000-00000000000c''"

definition no_fields :: TaskUpdate where
  "no_fields = \<lparr>title_upd = None, description_upd = None, completed_upd = None,
                priority_upd = None, tags_upd = None\<rparr>"

section \<open>Payloads for concrete runs\<close>

definition title_only :: TaskUpdate where
  "title_only = no_fields\<lparr>title_upd := Some (Some ''buy oat milk'')\<rparr>"

definition tagged_create :: TaskCreate where
  "tagged_create = \<lparr>title_c = ''call mum'', description_c = None, completed_c = False,
                    priority_c = None, tags_c = Some [''family'', ''phone'']\<rparr>"

definition new_task_id :: string where
  "new_task_id = ''00000000-0000-0000-0000-00000000000f''"

definition alice_token :: claims where
  "alice_token = login_data alice_id ''alice@example.com''"

definition tags_only :: TaskUpdate where
  "tags_only = no_fields\<lparr>tags_upd := Some (Some [''urgent''])\<rparr>"

definition carol :: UserCreate where
  "carol = \<lparr>email_c = ''carol@example.com'', name_c = Some ''Carol'', password_c = ''secret1''\<rparr>"

definition dave :: UserCreate where
  "dave = \<lparr>email_c = ''dave@example.com'', name_c = None, password_c = ''secret2''\<rparr>"

definition alice_again :: UserCreate where
  "alice_again = \<lparr>email_c = ''alice@example.com'', name_c = None, password_c = ''secret3''\<rparr>"

text \<open>A stand-in for the password hash in concrete runs; the theorems hold for any function.\<close>

definition salted :: "string \<Rightarrow> string" where
  "salted p = CHR ''#'' # p"

text \<open>The answer of \<open>register_user\<close> to an email that is already registered.\<close>

definition conflict :: error where
  "conflict = HTTPException 400 ''A user with this email already exists''"

section \<open>Basic facts\<close>

lemmas route_defs = get_tasks_route_def create_task_route_def get_task_route_def
  update_task_route_def delete_task_route_def toggle_task_completion_route_def

lemmas store_defs = store_def alice_def bob_def milk_def report_def walk_def

lemma canonical_ids:
  "canonical_uuid alice_id = Some 10" "canonical_uuid bob_id = Some 11"
  "canonical_uuid milk_id = Some 12" "canonical_uuid ''not-a-uuid'' = None"
  by (simp_all add: canonical_uuid_def alice_id_def bob_id_def milk_id_def hex_digit_def)

lemma ids_differ: "bob_id \<noteq> alice_id"
  by (simp add: alice_id_def bob_id_def)

lemma pk_unique_store: "pk_unique store"
  by (simp add: pk_unique_def store_defs)

lemma inj_load: "inj load"
  by (rule injI) (simp add: load_def)

lemma foreign_lookup_empty:
  assumes "distinct (map id_t ts)" "T \<in> set ts" "user_id T \<noteq> B"
  shows "filter (\<lambda>t. user_id t = B \<and> id_t t = id_t T) ts = []"
proof -
  have "\<And>t. t \<in> set ts \<Longrightarrow> id_t t = id_t T \<Longrightarrow> t = T"
    using assms(1,2) by (meson distinct_map inj_onD)
  with assms(3) show ?thesis by (auto simp: filter_empty_conv)
qed

lemma absent_lookup_empty:
  assumes "tid \<notin> set (map id_t ts)"
  shows "filter (\<lambda>t. user_id t = B \<and> id_t t = tid) ts = []"
  using assms by (auto simp: filter_empty_conv)

lemma status_filter_None: "status_filter None t" "status_filter (Some []) t"
  by (simp_all add: status_filter_def)

lemma priority_filter_None: "priority_filter None t" "priority_filter (Some []) t"
  by (simp_all add: priority_filter_def)

lemma status_filter_completed: "status_filter (Some ''completed'') t = (completed t = Some True)"
  by (simp add: status_filter_def)

lemma fst_get_tasks_by_user:
  "fst (get_tasks_by_user db uid status prio)
     = map load (filter (\<lambda>t. user_id t = uid \<and> status_filter status t \<and> priority_filter prio t)
                   (tasks db))"
  by (simp add: get_tasks_by_user_def Let_def conj_commute conj_left_commute)

section \<open>Owner scoping of the repository\<close>

text \<open>
  C1. Let the task \<open>T\<close> be stored and owned by \<open>A\<close>, and let \<open>B\<close> be another owner.
  Then \<open>get_task_by_id\<close>, \<open>update_task\<close>, \<open>delete_task\<close> and \<open>toggle_task_completion\<close>,
  called for \<open>B\<close> with the id of \<open>T\<close>, return exactly what they return for an id that is
  stored nowhere: the not-found value, and a store that differs from the one before only
  by the query recorded in the session trace; no row of either table is changed.
\<close>

theorem cross_owner_not_found:
  assumes "pk_unique db" "T \<in> set (tasks db)" "user_id T = A" "A \<noteq> B"
    and "absent \<notin> set (map id_t (tasks db))"
  shows "get_task_by_id db B (id_t T) = (None, session_op Query db)
       \<and> get_task_by_id db B absent = (None, session_op Query db)
       \<and> update_task db B (id_t T) task_data = (Inr None, session_op Query db)
       \<and> update_task db B absent task_data = (Inr None, session_op Query db)
       \<and> delete_task db B (id_t T) = (False, session_op Query db)
       \<and> delete_task db B absent = (False, session_op Query db)
       \<and> toggle_task_completion db B (id_t T) c = (Inr None, session_op Query db)
       \<and> toggle_task_completion db B absent c = (Inr None, session_op Query db)
       \<and> tasks (session_op Query db) = tasks db
       \<and> users (session_op Query db) = users db"
proof -
  have e1: "filter (\<lambda>t. user_id t = B \<and> id_t t = id_t T) (tasks db) = []"
    using assms foreign_lookup_empty[of "tasks db" T B] by (simp add: pk_unique_def)
  have e2: "filter (\<lambda>t. user_id t = B \<and> id_t t = absent) (tasks db) = []"
    using assms(5) by (rule absent_lookup_empty)
  have g1: "get_task_by_id db B (id_t T) = (None, session_op Query db)"
    by (simp add: get_task_by_id_def e1)
  have g2: "get_task_by_id db B absent = (None, session_op Query db)"
    by (simp add: get_task_by_id_def e2)
  show ?thesis
    by (simp add: g1 g2 update_task_def delete_task_def toggle_task_completion_def session_op_def)
qed

theorem cross_owner_not_found_witness:
  "pk_unique store \<and> milk \<in> set (tasks store) \<and> user_id milk = 10 \<and> (10::nat) \<noteq> 11
   \<and> 99 \<notin> set (map id_t (tasks store))
   \<and> get_task_by_id store 11 12 = (None, session_op Query store)
   \<and> update_task store 11 12 no_fields = (Inr None, session_op Query store)
   \<and> delete_task store 11 12 = delete_task store 11 99
   \<and> toggle_task_completion store 11 12 True = (Inr None, session_op Query store)
   \<and> tasks (session_op Query store) = [milk, report, walk]"
proof -
  have h: "milk \<in> set (tasks store)" "user_id milk = 10" "(10::nat) \<noteq> 11"
    "99 \<notin> set (map id_t (tasks store))" "id_t milk = 12"
    by (simp_all add: store_defs)
  from cross_owner_not_found[OF pk_unique_store h(1,2,3,4), of no_fields True] h pk_unique_store
  show ?thesis by (simp add: store_def)
qed

section \<open>The parser on canonical identifiers\<close>















section \<open>Authorization and validation in the task endpoints\<close>

lemma other_routes_unauthorized:
  assumes "token_data ''sub'' \<noteq> Some (JStr uid)"
  shows "create_task_route uuid_UUID new_id token_data db uid task_data
           = (Inl (HTTPException 401 ''Unauthorized to create tasks for this user''), db)
       \<and> get_task_route uuid_UUID token_data db uid tid
           = (Inl (HTTPException 401 ''Unauthorized access to this task''), db)
       \<and> update_task_route uuid_UUID token_data db uid tid upd
           = (Inl (HTTPException 401 ''Unauthorized to update this task''), db)
       \<and> delete_task_route uuid_UUID token_data db uid tid
           = (Inl (HTTPException 401 ''Unauthorized to delete this task''), db)
       \<and> toggle_task_completion_route uuid_UUID token_data db uid tid c
           = (Inl (HTTPException 401 ''Unauthorized to update this task''), db)"
  using assms by (simp add: route_defs)

lemma list_route_mismatch:
  assumes "token_data ''sub'' \<noteq> Some (JStr uid)"
  shows "get_tasks_route uuid_UUID token_data db uid status prio = (Inl AttributeError, db)"
  using assms by (simp add: get_tasks_route_def)

text \<open>
  C2 says that a request whose token subject differs from the owner id of the path is
  answered 401 before the store is touched, on every task endpoint. The list endpoint
  does not do so: with Bob's token on Alice's path it raises \<open>AttributeError\<close>, whatever
  the status filter is, where the endpoint for a single task answers 401 on the same
  request. The store is handed back untouched in both cases.
\<close>

theorem list_endpoint_mismatch_raises:
  "login_data bob_id ''bob@example.com'' ''sub'' \<noteq> Some (JStr alice_id)
   \<and> get_tasks_route UUID (login_data bob_id ''bob@example.com'') store alice_id None None
       = (Inl AttributeError, store)
   \<and> get_tasks_route UUID (login_data bob_id ''bob@example.com'') store alice_id
        (Some ''completed'') None
       = (Inl AttributeError, store)
   \<and> get_task_route UUID (login_data bob_id ''bob@example.com'') store alice_id milk_id
       = (Inl (HTTPException 401 ''Unauthorized access to this task''), store)"
  by (simp add: get_tasks_route_def get_task_route_def login_data_def ids_differ)





section \<open>Filters of the task list\<close>

text \<open>
  C7. With the status filter \<open>completed\<close> alone, \<open>get_tasks_by_user\<close> returns exactly the
  owner's rows whose \<open>completed\<close> is true, in stored order; with both filters the result
  is the intersection of the two single-filter results; an omitted filter (absent or the
  empty string) changes nothing.
\<close>

theorem status_priority_filters:
  "fst (get_tasks_by_user db uid (Some ''completed'') None)
     = map load (filter (\<lambda>t. user_id t = uid \<and> completed t = Some True) (tasks db))
   \<and> set (fst (get_tasks_by_user db uid status prio))
     = set (fst (get_tasks_by_user db uid status None))
         \<inter> set (fst (get_tasks_by_user db uid None prio))
   \<and> fst (get_tasks_by_user db uid None None)
     = map load (filter (\<lambda>t. user_id t = uid) (tasks db))
   \<and> fst (get_tasks_by_user db uid None prio) = fst (get_tasks_by_user db uid (Some []) prio)
   \<and> fst (get_tasks_by_user db uid status None) = fst (get_tasks_by_user db uid status (Some []))"
proof -
  have a: "fst (get_tasks_by_user db uid (Some ''completed'') None)
     = map load (filter (\<lambda>t. user_id t = uid \<and> completed t = Some True) (tasks db))"
    by (simp add: fst_get_tasks_by_user status_filter_completed priority_filter_None)
  have b: "set (fst (get_tasks_by_user db uid status prio))
     = set (fst (get_tasks_by_user db uid status None))
         \<inter> set (fst (get_tasks_by_user db uid None prio))"
    unfolding fst_get_tasks_by_user set_map image_Int[OF inj_load, symmetric]
    by (rule arg_cong[where f="image load"]) (auto simp: status_filter_None priority_filter_None)
  have c: "fst (get_tasks_by_user db uid None None)
     = map load (filter (\<lambda>t. user_id t = uid) (tasks db))"
    by (simp add: fst_get_tasks_by_user status_filter_None priority_filter_None)
  have d: "fst (get_tasks_by_user db uid None prio) = fst (get_tasks_by_user db uid (Some []) prio)"
    by (simp add: fst_get_tasks_by_user status_filter_None)
  have e: "fst (get_tasks_by_user db uid status None)
     = fst (get_tasks_by_user db uid status (Some []))"
    by (simp add: fst_get_tasks_by_user priority_filter_None)
  from a b c d e show ?thesis by blast
qed

text \<open>
  C10. A status argument other than \<open>completed\<close> and \<open>incomplete\<close>, the empty string
  included, is ignored: \<open>get_tasks_by_user\<close> returns what it returns without a status
  argument, the owner's rows under the priority filter alone.
\<close>

theorem unrecognised_status_ignored:
  assumes "s \<noteq> ''completed''" "s \<noteq> ''incomplete''"
  shows "get_tasks_by_user db uid (Some s) prio = get_tasks_by_user db uid None prio"
  using assms by (simp add: get_tasks_by_user_def status_filter_def Let_def)

theorem unrecognised_status_ignored_witness:
  "''all'' \<noteq> ''completed'' \<and> ''all'' \<noteq> ''incomplete''
   \<and> get_tasks_by_user store 10 (Some ''all'') (Some ''low'')
       = get_tasks_by_user store 10 None (Some ''low'')
   \<and> fst (get_tasks_by_user store 10 None (Some ''low'')) = [load milk]"
proof -
  have h: "''all'' \<noteq> ''completed''" "''all'' \<noteq> ''incomplete''" by simp_all
  have r: "fst (get_tasks_by_user store 10 None (Some ''low'')) = [load milk]"
    by (simp add: fst_get_tasks_by_user status_filter_None priority_filter_def store_defs)
  from unrecognised_status_ignored[OF h, of store 10 "Some ''low''"] h r show ?thesis by simp
qed

section \<open>Partial update\<close>

lemma own_lookup:
  assumes "distinct (map id_t ts)" "T \<in> set ts"
  shows "filter (\<lambda>t. user_id t = user_id T \<and> id_t t = id_t T) ts = [T]"
  using assms
proof (induction ts)
  case Nil
  then show ?case by simp
next
  case (Cons a ts)
  show ?case
  proof (cases "a = T")
    case True
    with Cons.prems have "\<forall>t \<in> set ts. id_t t \<noteq> id_t T" by (auto simp: image_iff)
    then have "filter (\<lambda>t. user_id t = user_id T \<and> id_t t = id_t T) ts = []"
      by (auto simp: filter_empty_conv)
    with True show ?thesis by simp
  next
    case False
    with Cons.prems have in_ts: "T \<in> set ts" and "id_t a \<noteq> id_t T" by (auto simp: image_iff)
    with Cons show ?thesis by simp
  qed
qed

lemma get_own_task:
  assumes "pk_unique db" "T \<in> set (tasks db)" "user_id T = uid"
  shows "get_task_by_id db uid (id_t T) = (Some (load T), session_op Query db)"
  using own_lookup[of "tasks db" T] assms by (simp add: get_task_by_id_def pk_unique_def)

lemma cols_setattr_all:
  "cols (foldl setattr obj (dict_exclude_unset d)) =
     (cols obj)\<lparr>title := (case title_upd d of None \<Rightarrow> title (cols obj) | Some v \<Rightarrow> v),
                description := (case description_upd d of None \<Rightarrow> description (cols obj) | Some v \<Rightarrow> v),
                completed := (case completed_upd d of None \<Rightarrow> completed (cols obj) | Some v \<Rightarrow> v),
                priority := (case priority_upd d of None \<Rightarrow> priority (cols obj) | Some v \<Rightarrow> v)\<rparr>"
  by (simp add: dict_exclude_unset_def split: option.splits)

lemma tags_setattr_all:
  "tags_attr (foldl setattr obj (dict_exclude_unset d)) =
     (case tags_upd d of None \<Rightarrow> tags_attr obj | Some v \<Rightarrow> Some v)"
  by (simp add: dict_exclude_unset_def split: option.splits)

lemma unchanged_iff:
  "((cols obj)\<lparr>title := (case title_upd d of None \<Rightarrow> title (cols obj) | Some v \<Rightarrow> v),
                description := (case description_upd d of None \<Rightarrow> description (cols obj) | Some v \<Rightarrow> v),
                completed := (case completed_upd d of None \<Rightarrow> completed (cols obj) | Some v \<Rightarrow> v),
                priority := (case priority_upd d of None \<Rightarrow> priority (cols obj) | Some v \<Rightarrow> v)\<rparr>
      = cols obj) = (\<not> net_change d (cols obj))"
  by (cases "cols obj") (auto simp: net_change_def split: option.splits)

lemma find_replaced:
  assumes "T \<in> set ts" "id_t N = id_t T"
  shows "find (\<lambda>r. id_t r = id_t T) (map (\<lambda>r. if id_t r = id_t T then N else r) ts) = Some N"
  using assms by (induction ts) auto

lemma find_present:
  assumes "distinct (map id_t ts)" "T \<in> set ts"
  shows "find (\<lambda>r. id_t r = id_t T) ts = Some T"
  using assms by (induction ts) (auto simp: rev_image_eqI)


lemma session_op_fields:
  "tasks (session_op op db) = tasks db" "users (session_op op db) = users db"
  "clock (session_op op db) = clock db"
  by (simp_all add: session_op_def)

lemma update_task_own:
  assumes "pk_unique db" "T \<in> set (tasks db)" "user_id T = uid"
  shows "update_task db uid (id_t T) d =
     (let new = T\<lparr>title := (case title_upd d of None \<Rightarrow> title T | Some v \<Rightarrow> v),
                  description := (case description_upd d of None \<Rightarrow> description T | Some v \<Rightarrow> v),
                  completed := (case completed_upd d of None \<Rightarrow> completed T | Some v \<Rightarrow> v),
                  priority := (case priority_upd d of None \<Rightarrow> priority T | Some v \<Rightarrow> v)\<rparr>;
          db2 = session_op Commit (session_op Add (session_op Query db))
      in if \<not> net_change d T
         then (Inr (Some \<lparr>cols = T, tags_attr = tags_upd d\<rparr>), session_op Refresh db2)
         else if title new = None then (Inl IntegrityError, db2)
         else (Inr (Some \<lparr>cols = new\<lparr>updated_at := clock db\<rparr>, tags_attr = tags_upd d\<rparr>),
               session_op Refresh
                 (db2\<lparr>tasks := map (\<lambda>r. if id_t r = id_t T then new\<lparr>updated_at := clock db\<rparr> else r)
                                  (tasks db)\<rparr>)))"
proof -
  let ?obj = "foldl setattr (load T) (dict_exclude_unset d)"
  let ?new = "T\<lparr>title := (case title_upd d of None \<Rightarrow> title T | Some v \<Rightarrow> v),
                  description := (case description_upd d of None \<Rightarrow> description T | Some v \<Rightarrow> v),
                  completed := (case completed_upd d of None \<Rightarrow> completed T | Some v \<Rightarrow> v),
                  priority := (case priority_upd d of None \<Rightarrow> priority T | Some v \<Rightarrow> v)\<rparr>"
  let ?db2 = "session_op Commit (session_op Add (session_op Query db))"
  have g: "get_task_by_id db uid (id_t T) = (Some (load T), session_op Query db)"
    using assms by (rule get_own_task)
  have c: "cols ?obj = ?new"
    by (simp add: cols_setattr_all load_def cong: option.case_cong)
  have tg: "tags_attr ?obj = tags_upd d"
    by (simp add: tags_setattr_all load_def split: option.splits)
  have obj: "?obj = \<lparr>cols = ?new, tags_attr = tags_upd d\<rparr>"
    using c tg by (cases ?obj) simp
  have u: "(?new = T) = (\<not> net_change d T)"
    using unchanged_iff[of "load T" d] by (simp add: load_def cong: option.case_cong)
  have d: "distinct (map id_t (tasks db))"
    using assms(1) by (simp add: pk_unique_def)
  have upd: "update_task db uid (id_t T) d =
       (case flush_update T ?new ?db2 of
          Inl e \<Rightarrow> (Inl e, ?db2)
        | Inr db3 \<Rightarrow>
            (case session_refresh \<lparr>cols = ?new, tags_attr = tags_upd d\<rparr> db3 of
               Inl e \<Rightarrow> (Inl e, session_op Refresh db3)
             | Inr task'' \<Rightarrow> (Inr (Some task''), session_op Refresh db3)))"
    unfolding update_task_def g by (simp add: obj Let_def) (simp add: load_def)
  show ?thesis
  proof (cases "net_change d T")
    case False
    then have eq: "?new = T" using u by simp
    have r: "session_refresh \<lparr>cols = T, tags_attr = tags_upd d\<rparr> ?db2
               = Inr \<lparr>cols = T, tags_attr = tags_upd d\<rparr>"
      using find_present[OF d assms(2)] by (simp add: session_refresh_def session_op_fields)
    show ?thesis
      unfolding upd Let_def eq using False r by (simp add: flush_update_def)
  next
    case True
    then have ne: "?new \<noteq> T" using u by simp
    show ?thesis
    proof (cases "title ?new = None")
      case True
      with ne \<open>net_change d T\<close> show ?thesis
        unfolding upd Let_def by (simp add: flush_update_def)
    next
      case False
      let ?row = "?new\<lparr>updated_at := clock db\<rparr>"
      let ?db3 = "?db2\<lparr>tasks := map (\<lambda>r. if id_t r = id_t T then ?row else r) (tasks db)\<rparr>"
      have f: "flush_update T ?new ?db2 = Inr ?db3"
        using ne False by (simp add: flush_update_def session_op_fields)
      have idn: "id_t ?row = id_t T" by simp
      have r: "session_refresh \<lparr>cols = ?new, tags_attr = tags_upd d\<rparr> ?db3
                 = Inr \<lparr>cols = ?row, tags_attr = tags_upd d\<rparr>"
        using find_replaced[OF assms(2) idn] by (simp add: session_refresh_def)
      show ?thesis
        unfolding upd Let_def f using False \<open>net_change d T\<close> r by simp
    qed
  qed
qed


lemma replace_self:
  assumes "distinct (map id_t ts)" "T \<in> set ts"
  shows "map (\<lambda>r. if id_t r = id_t T then T else r) ts = ts"
proof -
  have "\<And>r. r \<in> set ts \<Longrightarrow> id_t r = id_t T \<Longrightarrow> r = T"
    using assms by (meson distinct_map inj_onD)
  then show ?thesis by (intro map_idI) auto
qed

text \<open>
  C6, amended. For a stored task of the owner, \<open>update_task\<close> succeeds unless the
  payload sets the title to null. When it succeeds, every column the payload provides
  holds the provided value, every other column (id, owner and creation time included)
  keeps its prior value, no other row and no user changes, and \<open>updated_at\<close> is set to
  the engine's current time exactly when some provided value differs from the stored
  one; otherwise \<open>updated_at\<close> keeps its prior value.
\<close>

theorem partial_update_frame:
  assumes "pk_unique db" "T \<in> set (tasks db)" "user_id T = uid"
  shows "(title_upd d \<noteq> Some None \<and> title T \<noteq> None \<longrightarrow>
            (\<exists>obj db'. update_task db uid (id_t T) d = (Inr (Some obj), db')))
       \<and> (\<forall>obj db'. update_task db uid (id_t T) d = (Inr (Some obj), db') \<longrightarrow>
            title (cols obj) = (case title_upd d of None \<Rightarrow> title T | Some v \<Rightarrow> v)
          \<and> description (cols obj) = (case description_upd d of None \<Rightarrow> description T | Some v \<Rightarrow> v)
          \<and> completed (cols obj) = (case completed_upd d of None \<Rightarrow> completed T | Some v \<Rightarrow> v)
          \<and> priority (cols obj) = (case priority_upd d of None \<Rightarrow> priority T | Some v \<Rightarrow> v)
          \<and> id_t (cols obj) = id_t T \<and> user_id (cols obj) = user_id T
          \<and> created_at (cols obj) = created_at T
          \<and> updated_at (cols obj) = (if net_change d T then clock db else updated_at T)
          \<and> tasks db' = map (\<lambda>r. if id_t r = id_t T then cols obj else r) (tasks db)
          \<and> users db' = users db)"
proof -
  note own = update_task_own[OF assms, of d]
  have d: "distinct (map id_t (tasks db))"
    using assms(1) by (simp add: pk_unique_def)
  note self = replace_self[OF d assms(2)]
  have succ: "title_upd d \<noteq> Some None \<and> title T \<noteq> None \<longrightarrow>
            (\<exists>obj db'. update_task db uid (id_t T) d = (Inr (Some obj), db'))"
    unfolding own Let_def by (auto split: option.splits)
  have frame: "\<forall>obj db'. update_task db uid (id_t T) d = (Inr (Some obj), db') \<longrightarrow>
            title (cols obj) = (case title_upd d of None \<Rightarrow> title T | Some v \<Rightarrow> v)
          \<and> description (cols obj) = (case description_upd d of None \<Rightarrow> description T | Some v \<Rightarrow> v)
          \<and> completed (cols obj) = (case completed_upd d of None \<Rightarrow> completed T | Some v \<Rightarrow> v)
          \<and> priority (cols obj) = (case priority_upd d of None \<Rightarrow> priority T | Some v \<Rightarrow> v)
          \<and> id_t (cols obj) = id_t T \<and> user_id (cols obj) = user_id T
          \<and> created_at (cols obj) = created_at T
          \<and> updated_at (cols obj) = (if net_change d T then clock db else updated_at T)
          \<and> tasks db' = map (\<lambda>r. if id_t r = id_t T then cols obj else r) (tasks db)
          \<and> users db' = users db"
  proof (intro allI impI)
    fix obj db'
    assume r: "update_task db uid (id_t T) d = (Inr (Some obj), db')"
    show "title (cols obj) = (case title_upd d of None \<Rightarrow> title T | Some v \<Rightarrow> v)
          \<and> description (cols obj) = (case description_upd d of None \<Rightarrow> description T | Some v \<Rightarrow> v)
          \<and> completed (cols obj) = (case completed_upd d of None \<Rightarrow> completed T | Some v \<Rightarrow> v)
          \<and> priority (cols obj) = (case priority_upd d of None \<Rightarrow> priority T | Some v \<Rightarrow> v)
          \<and> id_t (cols obj) = id_t T \<and> user_id (cols obj) = user_id T
          \<and> created_at (cols obj) = created_at T
          \<and> updated_at (cols obj) = (if net_change d T then clock db else updated_at T)
          \<and> tasks db' = map (\<lambda>r. if id_t r = id_t T then cols obj else r) (tasks db)
          \<and> users db' = users db"
    proof (cases "net_change d T")
      case False
      with r own have o: "obj = \<lparr>cols = T, tags_attr = tags_upd d\<rparr>"
        and s: "db' = session_op Refresh (session_op Commit (session_op Add (session_op Query db)))"
        by (simp_all add: Let_def)
      from False have
        "(case title_upd d of None \<Rightarrow> title T | Some v \<Rightarrow> v) = title T"
        "(case description_upd d of None \<Rightarrow> description T | Some v \<Rightarrow> v) = description T"
        "(case completed_upd d of None \<Rightarrow> completed T | Some v \<Rightarrow> v) = completed T"
        "(case priority_upd d of None \<Rightarrow> priority T | Some v \<Rightarrow> v) = priority T"
        by (auto simp: net_change_def split: option.splits)
      moreover have co: "cols obj = T" unfolding o by simp
      moreover have "tasks db' = map (\<lambda>r. if id_t r = id_t T then cols obj else r) (tasks db)"
        unfolding co self unfolding s by (simp add: session_op_fields)
      ultimately show ?thesis using False by (simp add: o s session_op_fields)
    next
      case True
      with r own show ?thesis
        by (auto simp: Let_def session_op_fields split: if_splits)
    qed
  qed
  from succ frame show ?thesis by blast
qed

lemma update_milk_title:
  "update_task store 10 (id_t milk) title_only
     = (Inr (Some \<lparr>cols = milk\<lparr>title := Some ''buy oat milk'', updated_at := 20\<rparr>, tags_attr = None\<rparr>),
        snd (update_task store 10 (id_t milk) title_only))"
  by (simp add: update_task_def get_task_by_id_def store_defs title_only_def no_fields_def
      dict_exclude_unset_def load_def flush_update_def session_op_def session_refresh_def)

theorem partial_update_frame_witness:
  "pk_unique store \<and> milk \<in> set (tasks store) \<and> user_id milk = 10
   \<and> title_upd title_only \<noteq> Some None \<and> title milk \<noteq> None
   \<and> update_task store 10 (id_t milk) title_only
       = (Inr (Some \<lparr>cols = milk\<lparr>title := Some ''buy oat milk'', updated_at := 20\<rparr>, tags_attr = None\<rparr>),
          snd (update_task store 10 (id_t milk) title_only))
   \<and> priority (cols \<lparr>cols = milk\<lparr>title := Some ''buy oat milk'', updated_at := 20\<rparr>, tags_attr = None\<rparr>)
       = Some ''low''
   \<and> tasks (snd (update_task store 10 (id_t milk) title_only))
       = [milk\<lparr>title := Some ''buy oat milk'', updated_at := 20\<rparr>, report, walk]"
proof -
  have h: "milk \<in> set (tasks store)" "user_id milk = 10"
    "title_upd title_only \<noteq> Some None" "title milk \<noteq> None"
    by (simp_all add: store_defs title_only_def no_fields_def)
  have ids: "id_t report \<noteq> id_t milk" "id_t walk \<noteq> id_t milk"
    by (simp_all add: store_defs)
  from partial_update_frame[OF pk_unique_store h(1,2), of title_only] update_milk_title
  have "priority (cols \<lparr>cols = milk\<lparr>title := Some ''buy oat milk'', updated_at := 20\<rparr>, tags_attr = None\<rparr>)
          = priority milk
      \<and> tasks (snd (update_task store 10 (id_t milk) title_only))
          = map (\<lambda>r. if id_t r = id_t milk then milk\<lparr>title := Some ''buy oat milk'', updated_at := 20\<rparr> else r)
              (tasks store)"
    by (simp add: title_only_def no_fields_def)
  with h pk_unique_store update_milk_title ids show ?thesis
    by (simp add: store_def) (simp add: milk_def)
qed

text \<open>
  C6, as the claim states it, fails in its last part: an update with an empty payload
  succeeds and returns the task with the \<open>updated_at\<close> it had, although the engine's
  clock is past it.
\<close>

theorem empty_update_keeps_updated_at:
  "update_task store 10 12 no_fields
     = (Inr (Some \<lparr>cols = milk, tags_attr = None\<rparr>),
        session_op Refresh (session_op Commit (session_op Add (session_op Query store))))
   \<and> updated_at milk = 7 \<and> clock store = 20"
  by (simp add: update_task_def get_task_by_id_def store_defs no_fields_def
      dict_exclude_unset_def load_def flush_update_def session_op_def session_refresh_def)

section \<open>Tags\<close>

lemma from_attributes_tags:
  assumes "from_attributes obj = Inr data"
  shows "tags_s data = (case tags_attr obj of None \<Rightarrow> Some [] | Some v \<Rightarrow> v)"
  using assms by (auto simp: from_attributes_def split: option.splits if_splits)

lemma from_attributes_loaded:
  assumes "from_attributes (load r) = Inr data"
  shows "tags_s data = Some []"
  using from_attributes_tags[OF assms] by (simp add: load_def)

lemma from_attributes_all_loaded:
  assumes "from_attributes_all (map load rs) = Inr ds"
  shows "\<forall>x \<in> set ds. tags_s x = Some []"
  using assms
proof (induction rs arbitrary: ds)
  case Nil
  then show ?case by simp
next
  case (Cons r rs)
  then show ?case
    by (auto split: sum.splits dest: from_attributes_loaded)
qed

lemma get_task_by_id_loaded:
  assumes "get_task_by_id db uid tid = (Some obj, db')"
  shows "\<exists>r \<in> set (tasks db). obj = load r"
proof -
  from assms obtain t ts where f: "filter (\<lambda>t. user_id t = uid \<and> id_t t = tid) (tasks db) = t # ts"
    and o: "obj = load t"
    by (auto simp: get_task_by_id_def split: list.splits)
  from f have "t \<in> set (filter (\<lambda>t. user_id t = uid \<and> id_t t = tid) (tasks db))" by simp
  with o show ?thesis by auto
qed

lemma create_task_ignores_tags:
  "create_task new_id db uid (task_data\<lparr>tags_c := x\<rparr>) = create_task new_id db uid task_data"
  by (simp add: create_task_def)

lemma update_task_ignores_tags:
  "snd (update_task db uid tid (d\<lparr>tags_upd := x\<rparr>)) = snd (update_task db uid tid d)"
proof (cases "fst (get_task_by_id db uid tid)")
  case None
  then show ?thesis
    by (cases "get_task_by_id db uid tid") (simp add: update_task_def)
next
  case (Some task)
  then obtain db1 where g: "get_task_by_id db uid tid = (Some task, db1)"
    by (cases "get_task_by_id db uid tid") simp
  have c: "cols (foldl setattr task (dict_exclude_unset (d\<lparr>tags_upd := x\<rparr>)))
         = cols (foldl setattr task (dict_exclude_unset d))"
    by (simp add: cols_setattr_all)
  show ?thesis
    unfolding update_task_def g
    by (simp add: Let_def c split: sum.splits)
qed

text \<open>
  C9. The \<open>tags\<close> of a create or update payload are accepted and never stored: the
  row type has no such column, \<open>create_task\<close> returns the same instance and the same
  store whatever the tags are, and \<open>update_task\<close> leaves the same store whatever the
  tags are. Every instance that a later query loads has no \<open>tags\<close> attribute, so every
  task that \<open>get_task\<close> or \<open>get_tasks\<close> returns carries the schema default, the empty
  list.
\<close>

theorem tags_not_persisted:
  "create_task new_id db uid (task_data\<lparr>tags_c := x\<rparr>) = create_task new_id db uid task_data
   \<and> snd (update_task db uid tid (d\<lparr>tags_upd := y\<rparr>)) = snd (update_task db uid tid d)
   \<and> (\<forall>obj db'. get_task_by_id db uid tid = (Some obj, db') \<longrightarrow> tags_attr obj = None)
   \<and> (\<forall>obj \<in> set (fst (get_tasks_by_user db uid status prio)). tags_attr obj = None)
   \<and> (\<forall>ok data db'. get_task_route uuid_UUID token_data db us ts = (Inr (TaskResponse ok data), db')
         \<longrightarrow> tags_s data = Some [])
   \<and> (\<forall>ok ds db'. get_tasks_route uuid_UUID token_data db us status prio
                     = (Inr (TasksResponse ok ds), db')
         \<longrightarrow> (\<forall>data \<in> set ds. tags_s data = Some []))"
proof -
  have a: "\<forall>obj db'. get_task_by_id db uid tid = (Some obj, db') \<longrightarrow> tags_attr obj = None"
    by (auto dest: get_task_by_id_loaded simp: load_def)
  have b: "\<forall>obj \<in> set (fst (get_tasks_by_user db uid status prio)). tags_attr obj = None"
    by (auto simp: fst_get_tasks_by_user load_def)
  have c: "\<forall>ok data db'. get_task_route uuid_UUID token_data db us ts = (Inr (TaskResponse ok data), db')
         \<longrightarrow> tags_s data = Some []"
  proof (intro allI impI)
    fix ok data db'
    assume r: "get_task_route uuid_UUID token_data db us ts = (Inr (TaskResponse ok data), db')"
    then obtain u t obj db1 where "get_task_by_id db u t = (Some obj, db1)"
      and fa: "from_attributes obj = Inr data"
      by (auto simp: get_task_route_def split: if_splits option.splits prod.splits sum.splits)
    then obtain row where "obj = load row" by (auto dest: get_task_by_id_loaded)
    with fa show "tags_s data = Some []" by (auto dest: from_attributes_loaded)
  qed
  have d: "\<forall>ok ds db'. get_tasks_route uuid_UUID token_data db us status prio
                     = (Inr (TasksResponse ok ds), db')
         \<longrightarrow> (\<forall>data \<in> set ds. tags_s data = Some [])"
  proof (intro allI impI)
    fix ok ds db'
    assume r: "get_tasks_route uuid_UUID token_data db us status prio = (Inr (TasksResponse ok ds), db')"
    then obtain u objs db1 where "get_tasks_by_user db u status prio = (objs, db1)"
      and "from_attributes_all objs = Inr ds"
      by (auto simp: get_tasks_route_def split: if_splits option.splits prod.splits sum.splits)
    then have "from_attributes_all (fst (get_tasks_by_user db u status prio)) = Inr ds"
      by simp
    then show "\<forall>data \<in> set ds. tags_s data = Some []"
      unfolding fst_get_tasks_by_user by (rule from_attributes_all_loaded)
  qed
  from a b c d create_task_ignores_tags update_task_ignores_tags show ?thesis by blast
qed


lemma canonical_new_task_id: "canonical_uuid new_task_id = Some 15"
  by (simp add: canonical_uuid_def new_task_id_def hex_digit_def)

lemma read_after_tagged_create:
  "get_task_route canonical_uuid alice_token (snd (create_task 15 store 10 tagged_create))
      alice_id new_task_id
     = (Inr (TaskResponse True \<lparr>title_s = ''call mum'', description_s = None, completed_s = False,
               priority_s = Some ''medium'', tags_s = Some [], id_s = 15, user_id_s = 10,
               created_at_s = 20, updated_at_s = 20\<rparr>),
        snd (get_task_route canonical_uuid alice_token (snd (create_task 15 store 10 tagged_create))
               alice_id new_task_id))"
  by (simp add: get_task_route_def alice_token_def login_data_def canonical_ids
      canonical_new_task_id create_task_def tagged_create_def flush_insert_def session_op_def
      session_refresh_def load_def store_defs get_task_by_id_def from_attributes_def Let_def)

lemma update_with_tags_only:
  "fst (update_task store 10 12 tags_only) = Inr (Some \<lparr>cols = milk, tags_attr = Some (Some [''urgent''])\<rparr>)"
  by (simp add: update_task_def get_task_by_id_def store_defs tags_only_def no_fields_def
      dict_exclude_unset_def load_def flush_update_def session_op_def session_refresh_def)

theorem tags_not_persisted_witness:
  "tags_c tagged_create = Some [''family'', ''phone'']
   \<and> get_task_route canonical_uuid alice_token (snd (create_task 15 store 10 tagged_create))
        alice_id new_task_id
       = (Inr (TaskResponse True \<lparr>title_s = ''call mum'', description_s = None, completed_s = False,
               priority_s = Some ''medium'', tags_s = Some [], id_s = 15, user_id_s = 10,
               created_at_s = 20, updated_at_s = 20\<rparr>),
          snd (get_task_route canonical_uuid alice_token (snd (create_task 15 store 10 tagged_create))
                 alice_id new_task_id))
   \<and> create_task 15 store 10 tagged_create = create_task 15 store 10 (tagged_create\<lparr>tags_c := None\<rparr>)
   \<and> fst (update_task store 10 12 tags_only)
       = Inr (Some \<lparr>cols = milk, tags_attr = Some (Some [''urgent''])\<rparr>)
   \<and> snd (update_task store 10 12 tags_only) = snd (update_task store 10 12 no_fields)
   \<and> tasks (snd (update_task store 10 12 no_fields)) = [milk, report, walk]"
proof -
  note t = tags_not_persisted[where new_id=15 and db=store and uid=10 and task_data=tagged_create
    and x=None and tid=12 and d=no_fields and y="Some (Some [''urgent''])"]
  have a: "tags_c tagged_create = Some [''family'', ''phone'']"
    by (simp add: tagged_create_def)
  from t have b: "create_task 15 store 10 tagged_create
                  = create_task 15 store 10 (tagged_create\<lparr>tags_c := None\<rparr>)"
    by simp
  from t have c: "snd (update_task store 10 12 tags_only) = snd (update_task store 10 12 no_fields)"
    by (simp add: tags_only_def)
  have d: "tasks (snd (update_task store 10 12 no_fields)) = [milk, report, walk]"
    by (simp add: update_task_def get_task_by_id_def store_defs no_fields_def
      dict_exclude_unset_def load_def flush_update_def session_op_def session_refresh_def)
  from tags_not_persisted[where uuid_UUID=canonical_uuid and token_data=alice_token
         and db="snd (create_task 15 store 10 tagged_create)" and us=alice_id and ts=new_task_id]
       read_after_tagged_create
  have e: "tags_s \<lparr>title_s = ''call mum'', description_s = None, completed_s = False,
               priority_s = Some ''medium'', tags_s = Some [], id_s = 15, user_id_s = 10,
               created_at_s = 20, updated_at_s = 20\<rparr> = Some []"
    by blast
  from a b c d e read_after_tagged_create update_with_tags_only show ?thesis by blast
qed


section \<open>Registration\<close>

lemma register_existing:
  assumes "email_c d \<in> set (map email (users db))"
  shows "register_user h n db d = (Inl conflict, session_op Query db)"
proof -
  from assms have "find (\<lambda>u. email u = email_c d) (users db) \<noteq> None"
    by (auto simp: find_None_iff)
  then show ?thesis
    by (auto simp: register_user_def conflict_def Let_def split: option.splits)
qed

lemma register_new:
  assumes "email_c d \<notin> set (map email (users db))"
  shows "register_user h n db d =
     (let u = \<lparr>id_u = n, email = email_c d, name = name_c d, hashed_password = h (password_c d),
               created_at_u = clock db, updated_at_u = clock db\<rparr>;
          db2 = session_op Commit (session_op Add (session_op Query db))
      in if n \<in> set (map id_u (users db)) then (Inl IntegrityError, db2)
         else (Inr u, session_op Refresh (db2\<lparr>users := users db @ [u]\<rparr>)))"
proof -
  from assms have "find (\<lambda>u. email u = email_c d) (users db) = None"
    by (auto simp: find_None_iff image_iff)
  then show ?thesis
    by (simp add: register_user_def Let_def)
qed

lemma users_session_op: "users (session_op op db) = users db"
  by (simp add: session_op_def)

lemma register_user_users:
  assumes "register_user h n db d = (r, db')"
  shows "users db' = users db @ yielded [r]"
proof (cases "email_c d \<in> set (map email (users db))")
  case True
  from assms register_existing[OF True, of h n] show ?thesis
    by (auto simp: users_session_op)
next
  case False
  from assms register_new[OF False, of h n] show ?thesis
    by (auto simp: Let_def users_session_op split: if_splits)
qed

lemma register_user_yields:
  assumes "register_user h n db d = (Inr u, db')"
  shows "id_u u = n \<and> email u = email_c d \<and> n \<notin> set (map id_u (users db))
         \<and> email_c d \<notin> set (map email (users db))"
proof (cases "email_c d \<in> set (map email (users db))")
  case True
  from assms register_existing[OF True, of h n] show ?thesis by simp
next
  case False
  from assms register_new[OF False, of h n] False show ?thesis
    by (auto simp: Let_def split: if_splits)
qed

lemma register_user_unique:
  assumes "users_unique db" "register_user h n db d = (r, db')"
  shows "users_unique db'"
proof (cases r)
  case (Inl e)
  with register_user_users[OF assms(2)] assms(1) show ?thesis
    by (simp add: users_unique_def)
next
  case (Inr u)
  with register_user_users[OF assms(2)] register_user_yields[of h n db d u db'] assms
  show ?thesis by (auto simp: users_unique_def)
qed

lemma yielded_Cons: "yielded (r # rs) = yielded [r] @ yielded rs"
  by (cases r) simp_all

lemma register_all_users:
  assumes "register_all h db reqs = (rs, db')"
  shows "users db' = users db @ yielded rs"
  using assms
proof (induction reqs arbitrary: db rs db')
  case Nil
  then show ?case by simp
next
  case (Cons q reqs)
  obtain n d where q: "q = (n, d)" by (cases q)
  obtain r db1 where s: "register_user h n db d = (r, db1)" by (cases "register_user h n db d")
  obtain rs1 db2 where t: "register_all h db1 reqs = (rs1, db2)" by (cases "register_all h db1 reqs")
  from Cons.prems q s t have "rs = r # rs1" "db' = db2" by simp_all
  with Cons.IH[OF t] register_user_users[OF s] show ?case
    by (simp add: yielded_Cons[of r rs1])
qed

lemma register_all_unique:
  assumes "users_unique db" "register_all h db reqs = (rs, db')"
  shows "users_unique db'"
  using assms
proof (induction reqs arbitrary: db rs db')
  case Nil
  then show ?case by simp
next
  case (Cons q reqs)
  obtain n d where q: "q = (n, d)" by (cases q)
  obtain r db1 where s: "register_user h n db d = (r, db1)" by (cases "register_user h n db d")
  obtain rs1 db2 where t: "register_all h db1 reqs = (rs1, db2)" by (cases "register_all h db1 reqs")
  from Cons.prems(2) q s t have "db' = db2" by simp
  with Cons.IH[OF register_user_unique[OF Cons.prems(1) s] t] show ?case by simp
qed

lemma register_all_succeeds:
  assumes "distinct (map (\<lambda>q. email_c (snd q)) reqs)"
    and "set (map (\<lambda>q. email_c (snd q)) reqs) \<inter> set (map email (users db)) = {}"
    and "distinct (map fst reqs)"
    and "set (map fst reqs) \<inter> set (map id_u (users db)) = {}"
  shows "fst (register_all h db reqs) = map Inr (yielded (fst (register_all h db reqs)))
       \<and> map id_u (yielded (fst (register_all h db reqs))) = map fst reqs
       \<and> map email (yielded (fst (register_all h db reqs))) = map (\<lambda>q. email_c (snd q)) reqs"
  using assms
proof (induction reqs arbitrary: db)
  case Nil
  then show ?case by simp
next
  case (Cons q reqs)
  obtain n d where q: "q = (n, d)" by (cases q)
  let ?u = "\<lparr>id_u = n, email = email_c d, name = name_c d, hashed_password = h (password_c d),
               created_at_u = clock db, updated_at_u = clock db\<rparr>"
  let ?db1 = "session_op Refresh
     ((session_op Commit (session_op Add (session_op Query db)))\<lparr>users := users db @ [?u]\<rparr>)"
  from Cons.prems q have fresh: "email_c d \<notin> set (map email (users db))"
    "n \<notin> set (map id_u (users db))" by auto
  then have s: "register_user h n db d = (Inr ?u, ?db1)"
    using register_new[OF fresh(1), of h n] by (simp add: Let_def)
  have u1: "users ?db1 = users db @ [?u]" by (simp add: users_session_op)
  obtain rs1 db2 where t: "register_all h ?db1 reqs = (rs1, db2)"
    by (cases "register_all h ?db1 reqs")
  have "fst (register_all h ?db1 reqs) = map Inr (yielded (fst (register_all h ?db1 reqs)))
       \<and> map id_u (yielded (fst (register_all h ?db1 reqs))) = map fst reqs
       \<and> map email (yielded (fst (register_all h ?db1 reqs))) = map (\<lambda>q. email_c (snd q)) reqs"
    using Cons.prems q by (intro Cons.IH) (auto simp: u1)
  with t have "rs1 = map Inr (yielded rs1)" "map id_u (yielded rs1) = map fst reqs"
    "map email (yielded rs1) = map (\<lambda>q. email_c (snd q)) reqs" by simp_all
  moreover have "fst (register_all h db (q # reqs)) = Inr ?u # rs1"
    using q s t by simp
  ultimately show ?case using q by simp
qed


lemma register_all_no_conflict:
  assumes "distinct (map (\<lambda>q. email_c (snd q)) reqs)"
    and "set (map (\<lambda>q. email_c (snd q)) reqs) \<inter> set (map email (users db)) = {}"
  shows "Inl conflict \<notin> set (fst (register_all h db reqs))"
  using assms
proof (induction reqs arbitrary: db)
  case Nil
  then show ?case by simp
next
  case (Cons q reqs)
  obtain n d where q: "q = (n, d)" by (cases q)
  obtain r db1 where s: "register_user h n db d = (r, db1)" by (cases "register_user h n db d")
  obtain rs1 db2 where t: "register_all h db1 reqs = (rs1, db2)" by (cases "register_all h db1 reqs")
  from Cons.prems q have fresh: "email_c d \<notin> set (map email (users db))" by auto
  from s register_new[OF fresh, of h n] have r: "r \<noteq> Inl conflict"
    by (auto simp: Let_def conflict_def split: if_splits)
  have "set (map email (users db1)) \<subseteq> insert (email_c d) (set (map email (users db)))"
    using register_user_users[OF s] register_user_yields[of h n db d _ db1] s
    by (cases r) auto
  moreover from Cons.prems q have "email_c d \<notin> set (map (\<lambda>q. email_c (snd q)) reqs)"
    and "set (map (\<lambda>q. email_c (snd q)) reqs) \<inter> set (map email (users db)) = {}"
    by auto
  ultimately have "set (map (\<lambda>q. email_c (snd q)) reqs) \<inter> set (map email (users db1)) = {}"
    by blast
  with Cons.prems have "Inl conflict \<notin> set (fst (register_all h db1 reqs))"
    by (intro Cons.IH) auto
  with r q s t show ?case by simp
qed

text \<open>
  C8. Starting from a store with one user per email and per id, serve any sequence of
  registrations. The users yielded are appended to the table in order, have pairwise
  distinct identifiers and emails, and the store still has one user per email. When the
  emails of the requests are pairwise distinct and not yet registered, no request is
  answered with the conflict error, and when the generated keys are fresh as well, every
  request yields a user. A registration with an email that is already registered is
  answered 400 and changes no table.
\<close>

theorem registration_unique:
  assumes "users_unique db"
  shows "users (snd (register_all h db reqs)) = users db @ yielded (fst (register_all h db reqs))
       \<and> users_unique (snd (register_all h db reqs))
       \<and> distinct (map id_u (yielded (fst (register_all h db reqs))))
       \<and> distinct (map email (yielded (fst (register_all h db reqs))))
       \<and> (distinct (map (\<lambda>q. email_c (snd q)) reqs)
            \<and> set (map (\<lambda>q. email_c (snd q)) reqs) \<inter> set (map email (users db)) = {}
          \<longrightarrow> Inl (HTTPException 400 ''A user with this email already exists'')
                \<notin> set (fst (register_all h db reqs)))
       \<and> (distinct (map (\<lambda>q. email_c (snd q)) reqs)
            \<and> set (map (\<lambda>q. email_c (snd q)) reqs) \<inter> set (map email (users db)) = {}
            \<and> distinct (map fst reqs)
            \<and> set (map fst reqs) \<inter> set (map id_u (users db)) = {}
          \<longrightarrow> fst (register_all h db reqs) = map Inr (yielded (fst (register_all h db reqs)))
            \<and> map id_u (yielded (fst (register_all h db reqs))) = map fst reqs
            \<and> map email (yielded (fst (register_all h db reqs))) = map (\<lambda>q. email_c (snd q)) reqs)
       \<and> (email_c d \<in> set (map email (users db))
          \<longrightarrow> register_user h n db d
                = (Inl (HTTPException 400 ''A user with this email already exists''),
                   session_op Query db)
            \<and> users (session_op Query db) = users db)"
proof -
  obtain rs db' where r: "register_all h db reqs = (rs, db')"
    by (cases "register_all h db reqs")
  have u: "users db' = users db @ yielded rs" using r by (rule register_all_users)
  have q: "users_unique db'" using assms r by (rule register_all_unique)
  from q u have dist: "distinct (map id_u (yielded rs))" "distinct (map email (yielded rs))"
    by (simp_all add: users_unique_def)
  from r u q dist register_all_no_conflict[of reqs db h] register_all_succeeds[of reqs db h]
    register_existing[of d db h n]
  show ?thesis by (simp add: users_session_op conflict_def)
qed

lemma users_unique_store: "users_unique store"
  by (simp add: users_unique_def store_defs)

theorem registration_unique_witness:
  "users_unique store
   \<and> distinct (map (\<lambda>q. email_c (snd q)) [(15, carol), (16, dave)])
   \<and> set (map (\<lambda>q. email_c (snd q)) [(15, carol), (16, dave)]) \<inter> set (map email (users store)) = {}
   \<and> distinct (map fst [(15::nat, carol), (16, dave)])
   \<and> set (map fst [(15, carol), (16, dave)]) \<inter> set (map id_u (users store)) = {}
   \<and> map id_u (yielded (fst (register_all salted store [(15, carol), (16, dave)]))) = [15, 16]
   \<and> map email (users (snd (register_all salted store [(15, carol), (16, dave)])))
       = [''alice@example.com'', ''bob@example.com'', ''carol@example.com'', ''dave@example.com'']
   \<and> email_c alice_again \<in> set (map email (users store))
   \<and> register_user salted 17 store alice_again
       = (Inl (HTTPException 400 ''A user with this email already exists''), session_op Query store)
   \<and> users (session_op Query store) = [alice, bob]"
proof -
  have h: "distinct (map (\<lambda>q. email_c (snd q)) [(15, carol), (16, dave)])"
    "set (map (\<lambda>q. email_c (snd q)) [(15, carol), (16, dave)]) \<inter> set (map email (users store)) = {}"
    "distinct (map fst [(15::nat, carol), (16, dave)])"
    "set (map fst [(15, carol), (16, dave)]) \<inter> set (map id_u (users store)) = {}"
    "email_c alice_again \<in> set (map email (users store))"
    by (simp_all add: carol_def dave_def alice_again_def store_defs)
  have e: "map (\<lambda>q. email_c (snd q)) [(15::nat, carol), (16, dave)]
             = [''carol@example.com'', ''dave@example.com'']"
    "map email (users store) = [''alice@example.com'', ''bob@example.com'']"
    "users store = [alice, bob]"
    by (simp_all add: carol_def dave_def store_defs)
  note t = registration_unique[OF users_unique_store, of salted "[(15, carol), (16, dave)]" alice_again 17]
  from t h(1-4) have a: "map id_u (yielded (fst (register_all salted store [(15, carol), (16, dave)])))
      = map fst [(15::nat, carol), (16, dave)]"
    and b: "map email (yielded (fst (register_all salted store [(15, carol), (16, dave)])))
      = map (\<lambda>q. email_c (snd q)) [(15::nat, carol), (16, dave)]"
    by blast+
  from t have c: "users (snd (register_all salted store [(15, carol), (16, dave)]))
      = users store @ yielded (fst (register_all salted store [(15, carol), (16, dave)]))"
    by blast
  from t h(5) have d: "register_user salted 17 store alice_again
      = (Inl (HTTPException 400 ''A user with this email already exists''), session_op Query store)"
    and f: "users (session_op Query store) = users store"
    by blast+
  have g: "map email (users (snd (register_all salted store [(15, carol), (16, dave)])))
       = [''alice@example.com'', ''bob@example.com'', ''carol@example.com'', ''dave@example.com'']"
    unfolding c map_append b e(1,2) by simp
  from a have a': "map id_u (yielded (fst (register_all salted store [(15, carol), (16, dave)]))) = [15, 16]"
    by simp
  note d' = d
  from f e(3) have f': "users (session_op Query store) = [alice, bob]" by simp
  from h users_unique_store a' g d' f' show ?thesis by blast
qed


section \<open>Token lifecycle\<close>

lemma plain_contract: "signing_contract plain_encode plain_decode"
  by (simp add: signing_contract_def plain_encode_def)

text \<open>
  C4. Under the signing contract, a token made by \<open>create_access_token\<close> for the subject
  \<open>S\<close> with no explicit lifetime verifies, at any time before its expiration, to claims
  whose subject is \<open>S\<close>; after its expiration it verifies to \<open>None\<close>. \<open>verify_token\<close>
  answers \<open>None\<close> exactly when the library refuses the token, whatever the refusal is
  (expired, bad signature, malformed). The expiration put into the token is the time of
  issue plus 7 days (604800 seconds) by default, and plus the given lifetime otherwise
  (a lifetime of zero counts as none given).
\<close>

theorem token_lifecycle:
  assumes "signing_contract jwt_encode jwt_decode"
  shows "(t < utcnow + days 7 \<longrightarrow>
            verify_token jwt_decode key t
              (create_access_token jwt_encode key utcnow (login_data S em) None)
              = Some ((login_data S em)(''exp'' \<mapsto> JNum (utcnow + days 7))))
       \<and> ((login_data S em)(''exp'' \<mapsto> JNum (utcnow + days 7))) ''sub'' = Some (JStr S)
       \<and> (utcnow + days 7 < t \<longrightarrow>
            verify_token jwt_decode key t
              (create_access_token jwt_encode key utcnow (login_data S em) None) = None)
       \<and> (\<forall>tok e. jwt_decode tok key t = Inl e \<longrightarrow> verify_token jwt_decode key t tok = None)
       \<and> (\<forall>tok. verify_token jwt_decode key t tok = None \<longrightarrow> (\<exists>e. jwt_decode tok key t = Inl e))
       \<and> create_access_token jwt_encode key utcnow data None
            = jwt_encode (data(''exp'' \<mapsto> JNum (utcnow + 604800))) key
       \<and> (d \<noteq> 0 \<longrightarrow> create_access_token jwt_encode key utcnow data (Some d)
            = jwt_encode (data(''exp'' \<mapsto> JNum (utcnow + d))) key)
       \<and> create_access_token jwt_encode key utcnow data (Some 0)
            = create_access_token jwt_encode key utcnow data None"
proof -
  have c: "create_access_token jwt_encode key utcnow (login_data S em) None
             = jwt_encode ((login_data S em)(''exp'' \<mapsto> JNum (utcnow + days 7))) key"
    by (simp add: create_access_token_def Let_def)
  have a: "t < utcnow + days 7 \<longrightarrow>
            verify_token jwt_decode key t
              (create_access_token jwt_encode key utcnow (login_data S em) None)
              = Some ((login_data S em)(''exp'' \<mapsto> JNum (utcnow + days 7)))"
    using assms unfolding c signing_contract_def verify_token_def by simp
  have b: "utcnow + days 7 < t \<longrightarrow>
            verify_token jwt_decode key t
              (create_access_token jwt_encode key utcnow (login_data S em) None) = None"
    using assms unfolding c signing_contract_def verify_token_def by simp
  have s: "((login_data S em)(''exp'' \<mapsto> JNum (utcnow + days 7))) ''sub'' = Some (JStr S)"
    by (simp add: login_data_def)
  have u: "\<forall>tok e. jwt_decode tok key t = Inl e \<longrightarrow> verify_token jwt_decode key t tok = None"
    by (simp add: verify_token_def)
  have v: "\<forall>tok. verify_token jwt_decode key t tok = None \<longrightarrow> (\<exists>e. jwt_decode tok key t = Inl e)"
    by (auto simp: verify_token_def split: sum.splits)
  have e1: "create_access_token jwt_encode key utcnow data None
            = jwt_encode (data(''exp'' \<mapsto> JNum (utcnow + 604800))) key"
    by (simp add: create_access_token_def Let_def days_def)
  have e2: "d \<noteq> 0 \<longrightarrow> create_access_token jwt_encode key utcnow data (Some d)
            = jwt_encode (data(''exp'' \<mapsto> JNum (utcnow + d))) key"
    by (simp add: create_access_token_def Let_def)
  have e3: "create_access_token jwt_encode key utcnow data (Some 0)
            = create_access_token jwt_encode key utcnow data None"
    by (simp add: create_access_token_def Let_def)
  from a s b u v e1 e2 e3 show ?thesis by blast
qed

theorem token_lifecycle_witness:
  "signing_contract plain_encode plain_decode
   \<and> (100::int) < 0 + days 7
   \<and> verify_token plain_decode ''k'' 100
       (create_access_token plain_encode ''k'' 0 (login_data alice_id ''alice@example.com'') None)
       = Some ((login_data alice_id ''alice@example.com'')(''exp'' \<mapsto> JNum (0 + days 7)))
   \<and> (0::int) + days 7 < 700000
   \<and> verify_token plain_decode ''k'' 700000
       (create_access_token plain_encode ''k'' 0 (login_data alice_id ''alice@example.com'') None)
       = None
   \<and> plain_decode Garbage ''k'' 100 = Inl DecodeError
   \<and> verify_token plain_decode ''k'' 100 Garbage = None
   \<and> plain_decode (Signed (login_data alice_id ''alice@example.com'') ''forged'') ''k'' 100
       = Inl InvalidSignatureError
   \<and> verify_token plain_decode ''k'' 100
       (Signed (login_data alice_id ''alice@example.com'') ''forged'') = None"
proof -
  note t = token_lifecycle[OF plain_contract, of _ 0 "''k''" alice_id "''alice@example.com''"]
  have h: "(100::int) < 0 + days 7" "(0::int) + days 7 < 700000"
    by (simp_all add: days_def)
  have g: "plain_decode Garbage ''k'' 100 = Inl DecodeError"
    "plain_decode (Signed (login_data alice_id ''alice@example.com'') ''forged'') ''k'' 100
       = Inl InvalidSignatureError"
    by simp_all
  from t[of 100] h(1) have a: "verify_token plain_decode ''k'' 100
       (create_access_token plain_encode ''k'' 0 (login_data alice_id ''alice@example.com'') None)
       = Some ((login_data alice_id ''alice@example.com'')(''exp'' \<mapsto> JNum (0 + days 7)))"
    by blast
  from t[of 700000] h(2) have b: "verify_token plain_decode ''k'' 700000
       (create_access_token plain_encode ''k'' 0 (login_data alice_id ''alice@example.com'') None)
       = None"
    by blast
  from t[of 100] g have c: "verify_token plain_decode ''k'' 100 Garbage = None"
    "verify_token plain_decode ''k'' 100
       (Signed (login_data alice_id ''alice@example.com'') ''forged'') = None"
    by blast+
  from plain_contract h g a b c show ?thesis by blast
qed

section \<open>The operations keep the primary keys unique\<close>

lemma pk_unique_session_op: "pk_unique (session_op op db) = pk_unique db"
  by (simp add: pk_unique_def session_op_def)

lemma flush_update_ids:
  assumes "flush_update old new db = Inr db'" "id_t new = id_t old"
  shows "map id_t (tasks db') = map id_t (tasks db)"
proof (cases "new = old")
  case True
  with assms show ?thesis by (simp add: flush_update_def)
next
  case False
  with assms have "tasks db' = map (\<lambda>r. if id_t r = id_t old then new\<lparr>updated_at := clock db\<rparr> else r) (tasks db)"
    by (auto simp: flush_update_def split: if_splits)
  with assms(2) show ?thesis by (simp add: comp_def cong: map_cong)
qed

lemma pk_unique_create_task:
  assumes "pk_unique db"
  shows "pk_unique (snd (create_task new_id db uid task_data))"
  using assms
  by (auto simp: create_task_def Let_def flush_insert_def pk_unique_def session_op_def
      split: sum.splits if_splits)

lemma pk_unique_update_task:
  assumes "pk_unique db"
  shows "pk_unique (snd (update_task db uid tid d))"
proof (cases "fst (get_task_by_id db uid tid)")
  case None
  then show ?thesis using assms
    by (cases "get_task_by_id db uid tid")
       (auto simp: update_task_def get_task_by_id_def pk_unique_session_op split: list.splits)
next
  case (Some task)
  then have g: "get_task_by_id db uid tid = (Some task, session_op Query db)"
    by (auto simp: get_task_by_id_def split: list.splits)
  let ?new = "cols (foldl setattr task (dict_exclude_unset d))"
  let ?db2 = "session_op Commit (session_op Add (session_op Query db))"
  have idn: "id_t ?new = id_t (cols task)" by (simp add: cols_setattr_all)
  show ?thesis
  proof (cases "flush_update (cols task) ?new ?db2")
    case (Inl e)
    then show ?thesis using assms unfolding update_task_def g
      by (simp add: Let_def pk_unique_session_op)
  next
    case (Inr db3)
    from flush_update_ids[OF Inr idn] assms have "pk_unique db3"
      by (simp add: pk_unique_def session_op_def)
    with Inr show ?thesis unfolding update_task_def g
      by (simp add: Let_def pk_unique_session_op split: sum.splits)
  qed
qed

lemma pk_unique_toggle_task_completion:
  assumes "pk_unique db"
  shows "pk_unique (snd (toggle_task_completion db uid tid c))"
proof (cases "fst (get_task_by_id db uid tid)")
  case None
  then show ?thesis using assms
    by (cases "get_task_by_id db uid tid")
       (auto simp: toggle_task_completion_def get_task_by_id_def pk_unique_session_op split: list.splits)
next
  case (Some task)
  then have g: "get_task_by_id db uid tid = (Some task, session_op Query db)"
    by (auto simp: get_task_by_id_def split: list.splits)
  let ?new = "(cols task)\<lparr>completed := Some c\<rparr>"
  let ?db2 = "session_op Commit (session_op Add (session_op Query db))"
  have idn: "id_t ?new = id_t (cols task)" by simp
  show ?thesis
  proof (cases "flush_update (cols task) ?new ?db2")
    case (Inl e)
    then show ?thesis using assms unfolding toggle_task_completion_def g
      by (simp add: Let_def pk_unique_session_op)
  next
    case (Inr db3)
    from flush_update_ids[OF Inr idn] assms have "pk_unique db3"
      by (simp add: pk_unique_def session_op_def)
    with Inr show ?thesis unfolding toggle_task_completion_def g
      by (simp add: Let_def pk_unique_session_op split: sum.splits)
  qed
qed

lemma pk_unique_delete_task:
  assumes "pk_unique db"
  shows "pk_unique (snd (delete_task db uid tid))"
  using assms
  by (auto simp: delete_task_def get_task_by_id_def flush_delete_def pk_unique_def session_op_def
      distinct_map_filter split: list.splits)

end
